theory Spec2Isabelle
  imports Complex_Main "HOL-Library.Sublist" "HOL-Library.Word"
begin

section \<open>The chat widget of src/Pages/chat-bot/chat-bot.tsx\<close>

text \<open>
  The component \<open>MyChatBot\<close> keeps six pieces of React state and one mutable ref, and has
  three handlers: \<open>handleApiKeySubmit\<close>, \<open>handleInputChange\<close> and the asynchronous
  \<open>handleSubmit\<close>. The handlers are modelled as functions on a record of that state.
  What the Gemini SDK and the clock do is not part of the component: each call into them
  appears as a parameter that says what the call returned or whether it threw.

  A JavaScript string is a sequence of UTF-16 code units, here a list of 16-bit words.
\<close>

subsection \<open>JavaScript strings\<close>

type_synonym jsstring = "16 word list"

text \<open>
  The string literals of the source are ASCII. \<open>js\<close> turns such a literal into its code
  units, one for each character.
\<close>

definition js :: "string \<Rightarrow> jsstring" where
  "js s = map (\<lambda>c. of_nat (of_char c)) s"

subsection \<open>Data\<close>

datatype Sender = User | Bot

text \<open>
  \<open>type Message = { id; text; sender; isStreaming? }\<close>. The optional field is \<open>None\<close>
  where the source leaves it out. \<open>id\<close> and \<open>text\<close> carry a suffix, the first being a
  HOL constant and the second a keyword.
\<close>

record Message =
  id_msg :: jsstring
  text_msg :: jsstring
  sender :: Sender
  isStreaming :: "bool option"

text \<open>
  The state of the component: the \<open>useState\<close> cells in the order of the source, and
  \<open>genAIRef.current\<close> (\<open>None\<close> for \<open>null\<close>). The client handle is opaque, of type \<open>'c\<close>.
\<close>

record 'c State =
  messages :: "Message list"
  inputValue :: jsstring
  isLoading :: bool
  apiKey :: jsstring
  apiKeyInput :: jsstring
  isApiKeySet :: bool
  genAIRef :: "'c option"

definition welcomeMessage :: Message where
  "welcomeMessage = \<lparr>id_msg = js ''welcome'',
     text_msg = js ''Hello, I am an AI assistant powered by Gemini. How can I help you today?'',
     sender = Bot, isStreaming = None\<rparr>"

definition initialState :: "'c State" where
  "initialState = \<lparr>messages = [welcomeMessage], inputValue = '''', isLoading = False,
     apiKey = '''', apiKeyInput = '''', isApiKeySet = False, genAIRef = None\<rparr>"

subsection \<open>The request sent to the provider\<close>

record GenerationConfig =
  temperature :: real
  topK :: nat
  topP :: real
  maxOutputTokens :: nat

record ModelParams =
  model :: jsstring
  generationConfig :: GenerationConfig

datatype Part = Text jsstring

record Content =
  role :: jsstring
  parts :: "Part list"

text \<open>
  One provider request: the client it goes through, the argument of
  \<open>getGenerativeModel\<close> and the \<open>contents\<close> of the argument of \<open>generateContentStream\<close>.
\<close>

record 'c Request =
  client :: 'c
  modelParams :: ModelParams
  contents :: "Content list"

definition theModelParams :: ModelParams where
  "theModelParams = \<lparr>model = js ''gemini-1.5-pro'',
     generationConfig = \<lparr>temperature = 7 / 10, topK = 40, topP = 95 / 100,
       maxOutputTokens = 1024\<rparr>\<rparr>"

subsection \<open>Strings: \<open>trim\<close> and the decimal form of a number\<close>

text \<open>
  \<open>String.prototype.trim\<close> removes the code units of WhiteSpace and LineTerminator from
  both ends. WhiteSpace is TAB, VT, FF, U+FEFF and the space separators of Unicode (SP,
  NBSP, U+1680, U+2000 to U+200A, U+202F, U+205F, U+3000); LineTerminator is LF, CR,
  U+2028 and U+2029. Each of them is a single code unit.
\<close>

definition isWhiteSpace :: "16 word \<Rightarrow> bool" where
  "isWhiteSpace c =
     (c \<in> {0x0009, 0x000A, 0x000B, 0x000C, 0x000D, 0x0020, 0x00A0, 0x1680, 0x2028, 0x2029,
            0x202F, 0x205F, 0x3000, 0xFEFF}
      \<or> (0x2000 \<le> c \<and> c \<le> 0x200A))"

definition trim :: "jsstring \<Rightarrow> jsstring" where
  "trim s = rev (dropWhile isWhiteSpace (rev (dropWhile isWhiteSpace s)))"

text \<open>
  The template literals \<open>`user-${Date.now()}`\<close> and \<open>`bot-${Date.now()}`\<close> print an
  integer in decimal. \<open>Date.now()\<close> is a whole number of milliseconds of magnitude at most
  8.64e15, so no exponent is ever printed.
\<close>

fun digits :: "nat \<Rightarrow> string" where
  "digits n = (if n < 10 then [''0123456789'' ! n]
               else digits (n div 10) @ [''0123456789'' ! (n mod 10)])"

declare digits.simps [simp del]

definition toString :: "int \<Rightarrow> string" where
  "toString i = (if i < 0 then CHR ''-'' # digits (nat (- i)) else digits (nat i))"

subsection \<open>handleApiKeySubmit and handleInputChange\<close>

definition alertText :: jsstring where
  "alertText =
     js ''Failed to initialize Gemini with the provided API key. Please check and try again.''"

text \<open>
  \<open>newGoogleGenerativeAI\<close> is the constructor \<open>new GoogleGenerativeAI(key)\<close>: \<open>None\<close> when
  it throws. The second component of the result is the text passed to \<open>alert\<close>, if any.
\<close>

definition handleApiKeySubmit ::
  "(jsstring \<Rightarrow> 'c option) \<Rightarrow> 'c State \<Rightarrow> 'c State \<times> jsstring option" where
  "handleApiKeySubmit newGoogleGenerativeAI s =
     (let s1 = s\<lparr>apiKey := apiKeyInput s\<rparr>
      in case newGoogleGenerativeAI (apiKeyInput s) of
           Some c \<Rightarrow> (s1\<lparr>genAIRef := Some c, isApiKeySet := True\<rparr>, None)
         | None \<Rightarrow> (s1, Some alertText))"

definition handleInputChange :: "jsstring \<Rightarrow> 'c State \<Rightarrow> 'c State" where
  "handleInputChange v s = s\<lparr>inputValue := v\<rparr>"

subsection \<open>handleSubmit\<close>

text \<open>The three updaters passed to \<open>setMessages\<close> after the request has been sent.\<close>

definition updateStreamedText :: "jsstring \<Rightarrow> jsstring \<Rightarrow> Message list \<Rightarrow> Message list" where
  "updateStreamedText botMessageId fullText prevMessages =
     map (\<lambda>msg. if id_msg msg = botMessageId then msg\<lparr>text_msg := fullText\<rparr> else msg)
       prevMessages"

definition markNotStreaming :: "jsstring \<Rightarrow> Message list \<Rightarrow> Message list" where
  "markNotStreaming botMessageId prevMessages =
     map (\<lambda>msg. if id_msg msg = botMessageId then msg\<lparr>isStreaming := Some False\<rparr> else msg)
       prevMessages"

definition errorText :: jsstring where
  "errorText = js ''Sorry, I encountered an error while generating a response. Please try again or check your API key.''"

definition updateWithError :: "jsstring \<Rightarrow> Message list \<Rightarrow> Message list" where
  "updateWithError botMessageId prevMessages =
     map (\<lambda>msg. if id_msg msg = botMessageId
                then msg\<lparr>text_msg := errorText, isStreaming := Some False\<rparr> else msg)
       prevMessages"

text \<open>
  The locals of one invocation that are live after the \<open>await\<close>: the identifier of the
  placeholder and the accumulator.
\<close>

record Run =
  botMessageId :: jsstring
  fullText :: jsstring

text \<open>
  What the surroundings supply to the synchronous part of one invocation: the two
  readings of the clock, the constructor, and whether \<open>getGenerativeModel\<close> throws.
\<close>

record 'c Env =
  dateNow1 :: int
  dateNow2 :: int
  newGoogleGenerativeAI :: "jsstring \<Rightarrow> 'c option"
  getGenerativeModelThrows :: bool

text \<open>
  An invocation either has returned or is suspended at
  \<open>await model.generateContentStream(...)\<close> and in the loop that follows, with its locals
  and the request it has issued.
\<close>

datatype 'c Progress = Returned | Awaiting Run "'c Request"

text \<open>The \<open>catch\<close> block followed by \<open>finally\<close>.\<close>

definition onError :: "jsstring \<Rightarrow> 'c State \<Rightarrow> 'c State" where
  "onError botId s =
     s\<lparr>messages := updateWithError botId (messages s), isLoading := False\<rparr>"

text \<open>
  The code from the entry of \<open>handleSubmit\<close> to its first \<open>await\<close>. The guard is
  \<open>!inputValue.trim()\<close>, true exactly for the empty string. There is no test of
  \<open>isLoading\<close>.
\<close>

definition handleSubmit :: "'c Env \<Rightarrow> 'c State \<Rightarrow> 'c State \<times> 'c Progress" where
  "handleSubmit env s =
     (if trim (inputValue s) = [] then (s, Returned)
      else
        let userMessage = \<lparr>id_msg = js (''user-'' @ toString (dateNow1 env)),
              text_msg = inputValue s, sender = User, isStreaming = None\<rparr>;
            botId = js (''bot-'' @ toString (dateNow2 env));
            botMessage = \<lparr>id_msg = botId, text_msg = '''', sender = Bot,
              isStreaming = Some True\<rparr>;
            s1 = s\<lparr>messages := messages s @ [userMessage, botMessage],
                   inputValue := '''', isLoading := True\<rparr>
        in case (case genAIRef s1 of
                   Some c \<Rightarrow> Some c
                 | None \<Rightarrow> newGoogleGenerativeAI env (apiKey s1)) of
             None \<Rightarrow> (onError botId s1, Returned)
           | Some c \<Rightarrow>
               let s2 = s1\<lparr>genAIRef := Some c\<rparr>
               in if getGenerativeModelThrows env then (onError botId s2, Returned)
                  else (s2, Awaiting \<lparr>botMessageId = botId, fullText = ''''\<rparr>
                         \<lparr>client = c, modelParams = theModelParams,
                          contents = [\<lparr>role = js ''user'',
                                       parts = [Text (text_msg userMessage)]\<rparr>]\<rparr>))"

text \<open>
  One turn of \<open>for await (const chunk of result.stream)\<close>, for a chunk whose \<open>text()\<close>
  returns \<open>chunkText\<close>.
\<close>

definition onChunk :: "jsstring \<Rightarrow> Run \<Rightarrow> 'c State \<Rightarrow> 'c State \<times> Run" where
  "onChunk chunkText r s =
     (let ft = fullText r @ chunkText
      in (s\<lparr>messages := updateStreamedText (botMessageId r) ft (messages s)\<rparr>,
          r\<lparr>fullText := ft\<rparr>))"

text \<open>The end of the loop: the last \<open>setMessages\<close> of the \<open>try\<close> block, then \<open>finally\<close>.\<close>

definition onStreamEnd :: "Run \<Rightarrow> 'c State \<Rightarrow> 'c State" where
  "onStreamEnd r s =
     s\<lparr>messages := markNotStreaming (botMessageId r) (messages s), isLoading := False\<rparr>"

text \<open>The loop over the chunks that arrive, in their order.\<close>

fun forAwait :: "jsstring list \<Rightarrow> Run \<Rightarrow> 'c State \<Rightarrow> 'c State \<times> Run" where
  "forAwait [] r s = (s, r)"
| "forAwait (chunkText # rest) r s =
     (case onChunk chunkText r s of (s', r') \<Rightarrow> forAwait rest r' s')"

text \<open>
  How a stream finishes: its iterator reports the end, or something inside the \<open>try\<close>
  block throws (the request is rejected, pulling the next chunk fails, or \<open>chunk.text()\<close>
  throws).
\<close>

datatype Finish = Completes | Throws

text \<open>The rest of \<open>handleSubmit\<close> after its \<open>await\<close>, for a given stream.\<close>

definition resume :: "jsstring list \<Rightarrow> Finish \<Rightarrow> Run \<Rightarrow> 'c State \<Rightarrow> 'c State" where
  "resume chunks fin r s =
     (case forAwait chunks r s of
        (s', r') \<Rightarrow> (case fin of
                       Completes \<Rightarrow> onStreamEnd r' s'
                     | Throws \<Rightarrow> onError (botMessageId r') s'))"

subsection \<open>When React applies the updates\<close>

text \<open>
  Called with a function, \<open>setMessages\<close> does not change the state at once: React keeps
  the function and calls it when it next renders, the functions of one render in the
  order in which they were handed over. The function that the loop hands over reads the
  variable \<open>fullText\<close> when it is called. \<open>onChunk\<close> and \<open>forAwait\<close> above give the states
  of a page that renders after every turn of the loop. What follows leaves open when
  React renders.

  A suspended invocation in its loop: the state as last rendered, the locals, and the
  number of functions that the loop has handed over since.
\<close>

record 'c Streaming =
  rendered :: "'c State"
  locals :: Run
  pending :: nat

text \<open>One turn of the loop: the accumulator grows and one function is handed over.\<close>

definition turn :: "jsstring \<Rightarrow> 'c Streaming \<Rightarrow> 'c Streaming" where
  "turn chunkText b =
     b\<lparr>locals := (locals b)\<lparr>fullText := fullText (locals b) @ chunkText\<rparr>,
       pending := Suc (pending b)\<rparr>"

text \<open>A render: each pending function is called, with the accumulator as it is now.\<close>

definition render :: "'c Streaming \<Rightarrow> 'c Streaming" where
  "render b =
     b\<lparr>rendered := (rendered b)\<lparr>messages :=
         (updateStreamedText (botMessageId (locals b)) (fullText (locals b)) ^^ pending b)
           (messages (rendered b))\<rparr>,
       pending := 0\<rparr>"

text \<open>The course of a stream: fragments arrive, and now and then React renders.\<close>

datatype Tick = Arrives jsstring | Renders

fun run :: "Tick list \<Rightarrow> 'c Streaming \<Rightarrow> 'c Streaming" where
  "run [] b = b"
| "run (Arrives chunkText # ts) b = run ts (turn chunkText b)"
| "run (Renders # ts) b = run ts (render b)"

fun isArrives :: "Tick \<Rightarrow> bool" where
  "isArrives (Arrives chunkText) = True"
| "isArrives Renders = False"

text \<open>
  The fragments of a course in their order, the part of a course up to its last render,
  the part after it, and the course in which React renders after every fragment.
\<close>

fun arrived :: "Tick list \<Rightarrow> jsstring list" where
  "arrived [] = []"
| "arrived (Arrives chunkText # ts) = chunkText # arrived ts"
| "arrived (Renders # ts) = arrived ts"

definition untilLastRender :: "Tick list \<Rightarrow> Tick list" where
  "untilLastRender ts = rev (dropWhile isArrives (rev ts))"

definition sinceLastRender :: "Tick list \<Rightarrow> Tick list" where
  "sinceLastRender ts = rev (takeWhile isArrives (rev ts))"

fun everyFragment :: "jsstring list \<Rightarrow> Tick list" where
  "everyFragment [] = []"
| "everyFragment (chunkText # rest) = Arrives chunkText # Renders # everyFragment rest"

subsection \<open>The component as a transition system\<close>

text \<open>
  The component together with the invocations of \<open>handleSubmit\<close> that are suspended.
  Since \<open>handleSubmit\<close> does not look at \<open>isLoading\<close>, nothing in the handler keeps a
  second invocation from starting, so the suspended invocations form a list.
\<close>

record 'c Sys =
  ui :: "'c State"
  inflight :: "Run list"

definition initialSys :: "'c Sys" where
  "initialSys = \<lparr>ui = initialState, inflight = []\<rparr>"

text \<open>
  The events of the page. The first four come from the forms of the JSX, the last three
  from the stream of the suspended invocation with the given index.
\<close>

datatype 'c Event =
    ApiKeyInputChange jsstring
  | ApiKeyFormSubmit "jsstring \<Rightarrow> 'c option"
  | InputChange jsstring
  | FormSubmit "'c Env"
  | Chunk nat jsstring
  | StreamEnd nat
  | StreamThrow nat

definition dropRun :: "nat \<Rightarrow> Run list \<Rightarrow> Run list" where
  "dropRun i rs = take i rs @ drop (Suc i) rs"

text \<open>
  An event fires where the page offers it (\<open>None\<close> otherwise). The key form is rendered
  while \<open>isApiKeySet\<close> is false and the chat form once it is true; the chat input is
  \<open>disabled={isLoading}\<close>, so it produces no change event while a request is pending.
  The submit event of the chat form is offered also while \<open>isLoading\<close> holds: the model
  does not rely on the disabled button.
\<close>

fun fire :: "'c Event \<Rightarrow> 'c Sys \<Rightarrow> 'c Sys option" where
  "fire (ApiKeyInputChange v) y =
     (if isApiKeySet (ui y) then None
      else Some (y\<lparr>ui := (ui y)\<lparr>apiKeyInput := v\<rparr>\<rparr>))"
| "fire (ApiKeyFormSubmit ctor) y =
     (if isApiKeySet (ui y) then None
      else Some (y\<lparr>ui := fst (handleApiKeySubmit ctor (ui y))\<rparr>))"
| "fire (InputChange v) y =
     (if isApiKeySet (ui y) \<and> \<not> isLoading (ui y)
      then Some (y\<lparr>ui := handleInputChange v (ui y)\<rparr>) else None)"
| "fire (FormSubmit env) y =
     (if isApiKeySet (ui y)
      then (case handleSubmit env (ui y) of
              (s', Returned) \<Rightarrow> Some (y\<lparr>ui := s'\<rparr>)
            | (s', Awaiting r req) \<Rightarrow> Some \<lparr>ui = s', inflight = inflight y @ [r]\<rparr>)
      else None)"
| "fire (Chunk i chunkText) y =
     (if i < length (inflight y)
      then (case onChunk chunkText (inflight y ! i) (ui y) of
              (s', r') \<Rightarrow> Some \<lparr>ui = s', inflight = (inflight y)[i := r']\<rparr>)
      else None)"
| "fire (StreamEnd i) y =
     (if i < length (inflight y)
      then Some \<lparr>ui = onStreamEnd (inflight y ! i) (ui y), inflight = dropRun i (inflight y)\<rparr>
      else None)"
| "fire (StreamThrow i) y =
     (if i < length (inflight y)
      then Some \<lparr>ui = onError (botMessageId (inflight y ! i)) (ui y),
                  inflight = dropRun i (inflight y)\<rparr>
      else None)"

fun exec :: "'c Event list \<Rightarrow> 'c Sys \<Rightarrow> 'c Sys option" where
  "exec [] y = Some y"
| "exec (e # es) y = (case fire e y of None \<Rightarrow> None | Some y' \<Rightarrow> exec es y')"

text \<open>The key of a message: what makes it the same message while its text changes.\<close>

definition keyOf :: "Message \<Rightarrow> jsstring \<times> Sender" where
  "keyOf m = (id_msg m, sender m)"

definition streamingNow :: "Message \<Rightarrow> bool" where
  "streamingNow m = (isStreaming m = Some True)"

text \<open>
  The invariant of the reachable states. While a request is pending the draft is empty,
  at most one invocation is suspended, and a message that is streaming belongs to it.
\<close>

definition sysInv :: "'c Sys \<Rightarrow> bool" where
  "sysInv y =
     ((isLoading (ui y) \<longrightarrow> inputValue (ui y) = '''') \<and>
      (case inflight y of
         [] \<Rightarrow> filter streamingNow (messages (ui y)) = []
       | [r] \<Rightarrow> isLoading (ui y) \<and>
                length (filter streamingNow (messages (ui y))) \<le> 1 \<and>
                list_all (\<lambda>m. streamingNow m \<longrightarrow> id_msg m = botMessageId r)
                  (messages (ui y))
       | _ \<Rightarrow> False))"

subsection \<open>Example inputs\<close>

text \<open>
  A clock reading, an SDK whose constructor returns the key as the handle, and the state
  of the page after the key \<open>AIza-key\<close> has been accepted and \<open>Hello\<close> typed.
\<close>

definition exampleEnv :: "jsstring Env" where
  "exampleEnv = \<lparr>dateNow1 = 1700000000000, dateNow2 = 1700000000001,
     newGoogleGenerativeAI = Some, getGenerativeModelThrows = False\<rparr>"

definition exampleState :: "jsstring State" where
  "exampleState = \<lparr>messages = [welcomeMessage], inputValue = js ''Hello'', isLoading = False,
     apiKey = js ''AIza-key'', apiKeyInput = js ''AIza-key'', isApiKeySet = True,
     genAIRef = Some (js ''AIza-key'')\<rparr>"

text \<open>What \<open>handleSubmit\<close> makes of \<open>exampleState\<close>: the state, the locals and the request.\<close>

definition exampleSubmitted :: "jsstring State" where
  "exampleSubmitted = \<lparr>messages = [welcomeMessage,
       \<lparr>id_msg = js ''user-1700000000000'', text_msg = js ''Hello'', sender = User,
        isStreaming = None\<rparr>,
       \<lparr>id_msg = js ''bot-1700000000001'', text_msg = '''', sender = Bot,
        isStreaming = Some True\<rparr>],
     inputValue = '''', isLoading = True, apiKey = js ''AIza-key'',
     apiKeyInput = js ''AIza-key'', isApiKeySet = True, genAIRef = Some (js ''AIza-key'')\<rparr>"

definition exampleRun :: Run where
  "exampleRun = \<lparr>botMessageId = js ''bot-1700000000001'', fullText = ''''\<rparr>"

definition exampleRequest :: "jsstring Request" where
  "exampleRequest = \<lparr>client = js ''AIza-key'', modelParams = theModelParams,
     contents = [\<lparr>role = js ''user'', parts = [Text (js ''Hello'')]\<rparr>]\<rparr>"

text \<open>The loop of that invocation at its start: nothing has arrived, nothing is pending.\<close>

definition exampleLoop :: "jsstring Streaming" where
  "exampleLoop = \<lparr>rendered = exampleSubmitted, locals = exampleRun, pending = 0\<rparr>"

text \<open>The same page after one finished exchange, with a second question typed.\<close>

definition exampleLater :: "jsstring State" where
  "exampleLater = exampleState\<lparr>messages := [welcomeMessage,
       \<lparr>id_msg = js ''user-1600000000000'', text_msg = js ''Hi'', sender = User,
        isStreaming = None\<rparr>,
       \<lparr>id_msg = js ''bot-1600000000000'', text_msg = js ''Hello!'', sender = Bot,
        isStreaming = Some False\<rparr>],
     inputValue := js ''And then?''\<rparr>"

text \<open>
  A session: the key is typed and accepted, \<open>Hello\<close> is typed and submitted, and the first
  fragment \<open>Hi\<close> arrives. The page is then in \<open>exampleStreaming\<close>.
\<close>

definition exampleEvents :: "jsstring Event list" where
  "exampleEvents = [ApiKeyInputChange (js ''AIza-key''), ApiKeyFormSubmit Some,
     InputChange (js ''Hello''), FormSubmit exampleEnv, Chunk 0 (js ''Hi'')]"

definition exampleStreaming :: "jsstring Sys" where
  "exampleStreaming =
     \<lparr>ui = \<lparr>messages = [welcomeMessage,
              \<lparr>id_msg = js ''user-1700000000000'', text_msg = js ''Hello'', sender = User,
               isStreaming = None\<rparr>,
              \<lparr>id_msg = js ''bot-1700000000001'', text_msg = js ''Hi'', sender = Bot,
               isStreaming = Some True\<rparr>],
            inputValue = '''', isLoading = True, apiKey = js ''AIza-key'',
            apiKeyInput = js ''AIza-key'', isApiKeySet = True, genAIRef = Some (js ''AIza-key'')\<rparr>,
      inflight = [\<lparr>botMessageId = js ''bot-1700000000001'', fullText = js ''Hi''\<rparr>]\<rparr>"

section \<open>Auxiliary facts\<close>

lemma unat_js_char: "unat (of_nat (of_char c) :: 16 word) = of_char c"
proof -
  have "(of_char c :: nat) mod 256 < 256" by simp
  then have "(of_char c :: nat) < 256" by (simp only: of_char_mod_256)
  then have "(of_char c :: nat) < 65536" by (rule less_trans) simp
  then show ?thesis by (simp add: unat_of_nat take_bit_nat_eq_self)
qed

lemma js_eq_iff [simp]: "js a = js b \<longleftrightarrow> a = b"
proof -
  have "inj (\<lambda>c. of_nat (of_char c) :: 16 word)"
    by (rule injI) (metis unat_js_char of_char_eq_iff)
  then show ?thesis unfolding js_def by simp
qed

lemma js_Nil_iff [simp]: "js a = [] \<longleftrightarrow> a = []" "[] = js a \<longleftrightarrow> a = []"
  by (auto simp: js_def)

lemma js_append [simp]: "js a @ js b = js (a @ b)"
  by (simp add: js_def)

lemma trim_examples: "trim (js ''Hello'') \<noteq> []" "trim (js ''And then?'') \<noteq> []"
  by (simp_all add: trim_def js_def isWhiteSpace_def)


lemma trim_Nil_iff: "trim s = [] \<longleftrightarrow> (\<forall>c\<in>set s. isWhiteSpace c)"
proof
  assume "trim s = []"
  then have all: "\<forall>c\<in>set (dropWhile isWhiteSpace s). isWhiteSpace c"
    by (simp add: trim_def)
  have "dropWhile isWhiteSpace s = []"
  proof (rule ccontr)
    assume ne: "dropWhile isWhiteSpace s \<noteq> []"
    then have "\<not> isWhiteSpace (hd (dropWhile isWhiteSpace s))"
      by (rule hd_dropWhile)
    moreover from ne have "hd (dropWhile isWhiteSpace s) \<in> set (dropWhile isWhiteSpace s)"
      by simp
    ultimately show False using all by blast
  qed
  then show "\<forall>c\<in>set s. isWhiteSpace c"
    by simp
next
  assume "\<forall>c\<in>set s. isWhiteSpace c"
  then show "trim s = []"
    by (auto simp: trim_def dest: set_dropWhileD)
qed

lemma updateStreamedText_twice:
  "updateStreamedText b t2 (updateStreamedText b t1 xs) = updateStreamedText b t2 xs"
  by (induction xs) (simp_all add: updateStreamedText_def)

lemma length_updaters [simp]:
  "length (updateStreamedText b t xs) = length xs"
  "length (markNotStreaming b xs) = length xs"
  "length (updateWithError b xs) = length xs"
  by (simp_all add: updateStreamedText_def markNotStreaming_def updateWithError_def)

lemma keyOf_updaters [simp]:
  "map keyOf (updateStreamedText b t xs) = map keyOf xs"
  "map keyOf (markNotStreaming b xs) = map keyOf xs"
  "map keyOf (updateWithError b xs) = map keyOf xs"
  by (induction xs)
     (simp_all add: updateStreamedText_def markNotStreaming_def updateWithError_def keyOf_def)

lemma forAwait_eq:
  "forAwait fs r s =
     (s\<lparr>messages := (if fs = [] then messages s
                      else updateStreamedText (botMessageId r) (fullText r @ concat fs)
                             (messages s))\<rparr>,
      r\<lparr>fullText := fullText r @ concat fs\<rparr>)"
proof (induction fs arbitrary: r s)
  case Nil
  show ?case by simp
next
  case (Cons f fs)
  show ?case
    by (simp add: onChunk_def Let_def Cons.IH updateStreamedText_twice)
qed

lemma handleSubmit_Awaiting:
  assumes "handleSubmit env s = (s1, Awaiting r req)"
  shows "messages s1 = messages s @
           [\<lparr>id_msg = js (''user-'' @ toString (dateNow1 env)), text_msg = inputValue s,
              sender = User, isStreaming = None\<rparr>,
            \<lparr>id_msg = botMessageId r, text_msg = '''', sender = Bot,
              isStreaming = Some True\<rparr>]"
    and "fullText r = ''''"
    and "botMessageId r = js (''bot-'' @ toString (dateNow2 env))"
    and "isLoading s1" and "inputValue s1 = ''''"
    and "trim (inputValue s) \<noteq> []"
    and "modelParams req = theModelParams"
    and "contents req = [\<lparr>role = js ''user'', parts = [Text (inputValue s)]\<rparr>]"
  using assms
  by (auto simp: handleSubmit_def Let_def split: if_splits option.splits)

lemma nth_updater_other:
  assumes "i < length xs" and "id_msg (xs ! i) \<noteq> b"
  shows "updateStreamedText b t xs ! i = xs ! i"
    and "markNotStreaming b xs ! i = xs ! i"
    and "updateWithError b xs ! i = xs ! i"
  using assms
  by (simp_all add: updateStreamedText_def markNotStreaming_def updateWithError_def)

lemma digits_example:
  "digits 1700000000000 = ''1700000000000''" "digits 1700000000001 = ''1700000000001''"
  by (simp_all add: digits.simps)

lemma handleSubmit_exampleState:
  "handleSubmit exampleEnv exampleState =
     (exampleSubmitted, Awaiting exampleRun exampleRequest)"
  by (simp add: handleSubmit_def Let_def exampleEnv_def exampleState_def trim_examples
      toString_def digits_example exampleSubmitted_def exampleRun_def exampleRequest_def)

lemma length_exampleState: "length (messages exampleState) = 1"
  by (simp add: exampleState_def)

lemma inputValue_exampleState: "inputValue exampleState = js ''Hello''"
  by (simp add: exampleState_def)

lemma isApiKeySet_exampleState: "isApiKeySet exampleState"
  by (simp add: exampleState_def)

lemma streaming_updateStreamedText:
  "length (filter streamingNow (updateStreamedText b t xs)) = length (filter streamingNow xs)"
  "list_all (\<lambda>m. streamingNow m \<longrightarrow> id_msg m = c) (updateStreamedText b t xs) =
     list_all (\<lambda>m. streamingNow m \<longrightarrow> id_msg m = c) xs"
  by (induction xs) (simp_all add: updateStreamedText_def streamingNow_def)

lemma streaming_cleared:
  assumes "list_all (\<lambda>m. streamingNow m \<longrightarrow> id_msg m = b) xs"
  shows "filter streamingNow (markNotStreaming b xs) = []"
    and "filter streamingNow (updateWithError b xs) = []"
  using assms
  by (induction xs) (auto simp: markNotStreaming_def updateWithError_def streamingNow_def)

lemma no_streaming_list_all:
  "filter streamingNow xs = [] \<Longrightarrow> list_all (\<lambda>m. streamingNow m \<longrightarrow> id_msg m = b) xs"
  by (induction xs) (simp_all split: if_splits)

lemma handleSubmit_keys:
  "prefix (map keyOf (messages s)) (map keyOf (messages (fst (handleSubmit env s))))"
  by (simp add: handleSubmit_def Let_def onError_def split: option.splits)

lemma fire_keys:
  assumes "fire e y = Some y'"
  shows "prefix (map keyOf (messages (ui y))) (map keyOf (messages (ui y')))"
proof (cases e)
  case (FormSubmit env)
  with assms have "ui y' = fst (handleSubmit env (ui y))"
    by (auto split: if_splits prod.splits Progress.splits)
  then show ?thesis by (simp add: handleSubmit_keys)
qed (use assms in \<open>auto simp: handleApiKeySubmit_def handleInputChange_def onChunk_def
        onStreamEnd_def onError_def Let_def split: if_splits option.splits\<close>)

lemma sysInv_frame:
  assumes "isLoading (ui y') = isLoading (ui y)" and "inputValue (ui y') = inputValue (ui y)"
    and "messages (ui y') = messages (ui y)" and "inflight y' = inflight y"
  shows "sysInv y' = sysInv y"
  by (simp add: sysInv_def assms split: list.splits)

lemma sysInv_initial: "sysInv initialSys"
  by (simp add: sysInv_def initialSys_def initialState_def welcomeMessage_def streamingNow_def)

lemma sysInv_busy:
  assumes "sysInv y" and "isLoading (ui y)"
  shows "handleSubmit env (ui y) = (ui y, Returned)"
  using assms by (simp add: sysInv_def handleSubmit_def trim_def)

lemma sysInv_idle:
  assumes "sysInv y" and "\<not> isLoading (ui y)"
  shows "inflight y = []" and "filter streamingNow (messages (ui y)) = []"
  using assms by (auto simp: sysInv_def split: list.splits)

lemma sysInv_single:
  assumes "sysInv y" and "i < length (inflight y)"
  shows "i = 0" and "inflight y = [inflight y ! 0]" and "isLoading (ui y)"
    and "inputValue (ui y) = ''''"
    and "length (filter streamingNow (messages (ui y))) \<le> 1"
    and "list_all (\<lambda>m. streamingNow m \<longrightarrow> id_msg m = botMessageId (inflight y ! 0))
           (messages (ui y))"
  using assms by (auto simp: sysInv_def split: list.splits)

lemma sysInv_submit:
  assumes "sysInv y" and "fire (FormSubmit env) y = Some y'"
  shows "sysInv y'"
proof (cases "isLoading (ui y)")
  case True
  from sysInv_busy [OF assms(1) True] assms show ?thesis
    by (auto split: if_splits)
next
  case False
  note idle = sysInv_idle [OF assms(1) False]
  show ?thesis
  proof (cases "trim (inputValue (ui y)) = []")
    case True
    then have "handleSubmit env (ui y) = (ui y, Returned)"
      by (simp add: handleSubmit_def)
    with assms show ?thesis by (auto split: if_splits)
  next
    case ne: False
    obtain s' p where hs: "handleSubmit env (ui y) = (s', p)"
      by (cases "handleSubmit env (ui y)")
    show ?thesis
    proof (cases p)
      case Returned
      with hs ne have "\<not> isLoading s'" and "filter streamingNow (messages s') = []"
        using idle(2)
        by (auto simp: handleSubmit_def Let_def onError_def streamingNow_def
            updateWithError_def filter_empty_conv split: option.splits if_splits)
      moreover from hs Returned assms(2) have "y' = y\<lparr>ui := s'\<rparr>"
        by (auto split: if_splits)
      ultimately show ?thesis using idle(1)
        by (simp add: sysInv_def)
    next
      case (Awaiting r req)
      note a = handleSubmit_Awaiting [OF hs [unfolded Awaiting]]
      from hs Awaiting assms(2) have y': "y' = \<lparr>ui = s', inflight = [r]\<rparr>"
        using idle(1) by (auto split: if_splits)
      have "list_all (\<lambda>m. streamingNow m \<longrightarrow> id_msg m = botMessageId r) (messages (ui y))"
        by (rule no_streaming_list_all [OF idle(2)])
      with idle(2) a(4,5) show ?thesis
        by (simp add: y' sysInv_def a(1) streamingNow_def)
    qed
  qed
qed

lemma fire_sysInv:
  assumes "sysInv y" and "fire e y = Some y'"
  shows "sysInv y'"
proof (cases e)
  case (ApiKeyInputChange v)
  with assms(2) have "y' = y\<lparr>ui := (ui y)\<lparr>apiKeyInput := v\<rparr>\<rparr>"
    by (auto split: if_splits)
  then have "sysInv y' = sysInv y"
    by (intro sysInv_frame) simp_all
  with assms(1) show ?thesis by simp
next
  case (ApiKeyFormSubmit ctor)
  with assms(2) have "y' = y\<lparr>ui := fst (handleApiKeySubmit ctor (ui y))\<rparr>"
    by (auto split: if_splits)
  then have "sysInv y' = sysInv y"
    by (intro sysInv_frame) (simp_all add: handleApiKeySubmit_def Let_def split: option.splits)
  with assms(1) show ?thesis by simp
next
  case (InputChange v)
  with assms have idle: "\<not> isLoading (ui y)" and y': "y' = y\<lparr>ui := handleInputChange v (ui y)\<rparr>"
    by (auto split: if_splits)
  from sysInv_idle [OF assms(1) idle(1)] idle show ?thesis
    by (simp add: y' sysInv_def handleInputChange_def)
next
  case (FormSubmit env)
  with assms show ?thesis by (simp only: sysInv_submit)
next
  case (Chunk i t)
  with assms have i: "i < length (inflight y)"
    by (auto split: if_splits)
  note one = sysInv_single [OF assms(1) i]
  from assms(2) Chunk i one(1)
  have y': "y' = \<lparr>ui = fst (onChunk t (inflight y ! 0) (ui y)),
                   inflight = (inflight y)[0 := snd (onChunk t (inflight y ! 0) (ui y))]\<rparr>"
    by (auto split: prod.splits)
  have "inflight y' = [snd (onChunk t (inflight y ! 0) (ui y))]"
    unfolding y' using one(2) by (cases "inflight y") auto
  then show ?thesis
    using one(3-6)
    by (simp add: sysInv_def y' onChunk_def Let_def streaming_updateStreamedText)
next
  case (StreamEnd i)
  with assms have i: "i < length (inflight y)"
    by (auto split: if_splits)
  note one = sysInv_single [OF assms(1) i]
  from assms(2) StreamEnd i one(1)
  have y': "y' = \<lparr>ui = onStreamEnd (inflight y ! 0) (ui y), inflight = dropRun 0 (inflight y)\<rparr>"
    by auto
  have "inflight y' = []"
    unfolding y' using one(2) by (cases "inflight y") (auto simp: dropRun_def)
  then show ?thesis
    using streaming_cleared(1) [OF one(6)]
    by (simp add: sysInv_def y' onStreamEnd_def)
next
  case (StreamThrow i)
  with assms have i: "i < length (inflight y)"
    by (auto split: if_splits)
  note one = sysInv_single [OF assms(1) i]
  from assms(2) StreamThrow i one(1)
  have y': "y' = \<lparr>ui = onError (botMessageId (inflight y ! 0)) (ui y),
                   inflight = dropRun 0 (inflight y)\<rparr>"
    by auto
  have "inflight y' = []"
    unfolding y' using one(2) by (cases "inflight y") (auto simp: dropRun_def)
  then show ?thesis
    using streaming_cleared(2) [OF one(6)]
    by (simp add: sysInv_def y' onError_def)
qed

lemma exec_sysInv:
  "sysInv y \<Longrightarrow> exec es y = Some y' \<Longrightarrow> sysInv y'"
proof (induction es arbitrary: y)
  case Nil
  then show ?case by simp
next
  case (Cons e es)
  then show ?case
    by (auto split: option.splits dest: fire_sysInv)
qed

lemma exec_append:
  "exec (es @ es') y = (case exec es y of None \<Rightarrow> None | Some y1 \<Rightarrow> exec es' y1)"
  by (induction es arbitrary: y) (simp_all split: option.splits)

lemma exec_exampleEvents: "exec exampleEvents initialSys = Some exampleStreaming"
proof -
  have typed: "exec [ApiKeyInputChange (js ''AIza-key''), ApiKeyFormSubmit Some, InputChange (js ''Hello'')]
          (initialSys :: jsstring Sys) = Some \<lparr>ui = exampleState, inflight = []\<rparr>"
    by (simp add: initialSys_def initialState_def exampleState_def handleApiKeySubmit_def
        handleInputChange_def)
  have sent: "exec [FormSubmit exampleEnv, Chunk 0 (js ''Hi'')]
          \<lparr>ui = exampleState, inflight = []\<rparr> = Some exampleStreaming"
    by (simp add: handleSubmit_exampleState isApiKeySet_exampleState
        exampleSubmitted_def exampleRun_def exampleStreaming_def onChunk_def Let_def
        updateStreamedText_def welcomeMessage_def)
  have split: "exampleEvents =
      [ApiKeyInputChange (js ''AIza-key''), ApiKeyFormSubmit Some, InputChange (js ''Hello'')] @
      [FormSubmit exampleEnv, Chunk 0 (js ''Hi'')]"
    by (simp add: exampleEvents_def)
  show ?thesis
    by (simp only: split exec_append typed sent option.case)
qed

lemma handleSubmit_isApiKeySet:
  "isApiKeySet (fst (handleSubmit env s)) = isApiKeySet s"
  by (simp add: handleSubmit_def Let_def onError_def split: option.splits)

lemma fire_keySet:
  assumes "isLoading (ui y) \<longrightarrow> isApiKeySet (ui y)" and "fire e y = Some y'"
  shows "isLoading (ui y') \<longrightarrow> isApiKeySet (ui y')"
proof (cases e)
  case (FormSubmit env)
  with assms(2) have "isApiKeySet (ui y)" and "ui y' = fst (handleSubmit env (ui y))"
    by (auto split: if_splits prod.splits Progress.splits)
  then show ?thesis by (simp add: handleSubmit_isApiKeySet)
qed (use assms in \<open>auto simp: handleApiKeySubmit_def handleInputChange_def onChunk_def
        onStreamEnd_def onError_def Let_def split: if_splits option.splits\<close>)

lemma exec_keySet_from:
  "isLoading (ui y) \<longrightarrow> isApiKeySet (ui y) \<Longrightarrow> exec es y = Some y' \<Longrightarrow>
   isLoading (ui y') \<longrightarrow> isApiKeySet (ui y')"
proof (induction es arbitrary: y)
  case Nil
  then show ?case by simp
next
  case (Cons e es)
  from Cons.prems(2) obtain y1 where f: "fire e y = Some y1" and r: "exec es y1 = Some y'"
    by (auto split: option.splits)
  from Cons.IH [OF fire_keySet [OF Cons.prems(1) f] r] show ?case .
qed

lemma exec_keySet:
  assumes "exec es initialSys = Some y"
  shows "isLoading (ui y) \<longrightarrow> isApiKeySet (ui y)"
  by (rule exec_keySet_from [OF _ assms]) (simp add: initialSys_def initialState_def)

lemma run_append: "run (ts @ ts') b = run ts' (run ts b)"
  by (induction ts b rule: run.induct) simp_all

lemma arrived_append: "arrived (ts @ ts') = arrived ts @ arrived ts'"
  by (induction ts rule: arrived.induct) simp_all

lemma run_locals:
  "locals (run ts b) = (locals b)\<lparr>fullText := fullText (locals b) @ concat (arrived ts)\<rparr>"
  by (induction ts b rule: run.induct) (simp_all add: turn_def render_def)

lemma funpow_updateStreamedText:
  "(updateStreamedText b t ^^ k) xs = (if k = 0 then xs else updateStreamedText b t xs)"
proof (induction k)
  case 0
  show ?case by simp
next
  case (Suc k)
  then show ?case by (simp add: updateStreamedText_twice)
qed

lemma lastRender_snoc:
  "untilLastRender (ts @ [Arrives c]) = untilLastRender ts"
  "untilLastRender (ts @ [Renders]) = ts @ [Renders]"
  "sinceLastRender (ts @ [Arrives c]) = sinceLastRender ts @ [Arrives c]"
  "sinceLastRender (ts @ [Renders]) = []"
  by (simp_all add: untilLastRender_def sinceLastRender_def)

lemma untilLastRender_all:
  assumes "sinceLastRender ts = []"
  shows "untilLastRender ts = ts"
proof -
  from assms have "takeWhile isArrives (rev ts) = []"
    by (simp add: sinceLastRender_def)
  with takeWhile_dropWhile_id [of isArrives "rev ts"]
  have "dropWhile isArrives (rev ts) = rev ts" by simp
  then show ?thesis by (simp add: untilLastRender_def)
qed

lemma run_pending:
  assumes "pending b = 0"
  shows "pending (run ts b) = length (sinceLastRender ts)"
proof (induction ts rule: rev_induct)
  case Nil
  from assms show ?case by (simp add: sinceLastRender_def)
next
  case (snoc t ts)
  then show ?case
    by (cases t) (simp_all add: run_append lastRender_snoc turn_def render_def)
qed

lemma run_placeholder:
  assumes p0: "pending b = 0"
    and i: "i < length (messages (rendered b))"
    and own: "id_msg (messages (rendered b) ! i) = botMessageId (locals b)"
    and empty: "fullText (locals b) = ''''" "text_msg (messages (rendered b) ! i) = ''''"
  shows "length (messages (rendered (run ts b))) = length (messages (rendered b))
       \<and> id_msg (messages (rendered (run ts b)) ! i) = botMessageId (locals b)
       \<and> text_msg (messages (rendered (run ts b)) ! i) = concat (arrived (untilLastRender ts))"
proof (induction ts rule: rev_induct)
  case Nil
  from own empty show ?case by (simp add: untilLastRender_def)
next
  case (snoc t ts)
  let ?b = "run ts b"
  from snoc have len: "length (messages (rendered ?b)) = length (messages (rendered b))"
    and own': "id_msg (messages (rendered ?b) ! i) = botMessageId (locals b)"
    and shown: "text_msg (messages (rendered ?b) ! i) = concat (arrived (untilLastRender ts))"
    by simp_all
  show ?case
  proof (cases t)
    case (Arrives c)
    with len own' shown show ?thesis
      by (simp add: run_append lastRender_snoc turn_def)
  next
    case Renders
    have acc: "fullText (locals ?b) = concat (arrived ts)"
      and same: "botMessageId (locals ?b) = botMessageId (locals b)"
      by (simp_all add: run_locals empty(1))
    show ?thesis
    proof (cases "pending ?b = 0")
      case True
      with run_pending [OF p0, of ts] have "sinceLastRender ts = []" by simp
      then have "untilLastRender ts = ts" by (rule untilLastRender_all)
      with True len own' shown Renders show ?thesis
        by (simp add: run_append lastRender_snoc render_def arrived_append)
    next
      case False
      with len own' i Renders acc same show ?thesis
        by (simp add: run_append lastRender_snoc render_def arrived_append
            funpow_updateStreamedText updateStreamedText_def)
    qed
  qed
qed

lemma run_everyFragment:
  "pending b = 0 \<Longrightarrow>
   run (everyFragment fs) b =
     b\<lparr>rendered := fst (forAwait fs (locals b) (rendered b)),
       locals := snd (forAwait fs (locals b) (rendered b))\<rparr>"
proof (induction fs arbitrary: b)
  case Nil
  show ?case by simp
next
  case (Cons f fs)
  have "pending (render (turn f b)) = 0"
    by (simp add: render_def)
  from Cons.IH [OF this] Cons.prems show ?case
    by (simp add: turn_def render_def onChunk_def Let_def)
qed


section \<open>The claims\<close>

text \<open>
  C4, as amended. When the constructor throws, \<open>handleApiKeySubmit\<close> has already stored
  the submitted input as \<open>apiKey\<close>. Everything else is as before: \<open>isApiKeySet\<close>, the
  client handle and the transcript are untouched, and the failure is reported by an
  alert.
\<close>

theorem handleApiKeySubmit_throws:
  assumes "ctor (apiKeyInput s) = None"
  shows "handleApiKeySubmit ctor s = (s\<lparr>apiKey := apiKeyInput s\<rparr>, Some alertText)
       \<and> isApiKeySet (fst (handleApiKeySubmit ctor s)) = isApiKeySet s
       \<and> genAIRef (fst (handleApiKeySubmit ctor s)) = genAIRef s
       \<and> messages (fst (handleApiKeySubmit ctor s)) = messages s"
  using assms by (simp add: handleApiKeySubmit_def)

theorem handleApiKeySubmit_throws_witness:
  "Map.empty (apiKeyInput ((initialState :: unit State)\<lparr>apiKeyInput := js ''bad key''\<rparr>)) = None
   \<and> handleApiKeySubmit Map.empty ((initialState :: unit State)\<lparr>apiKeyInput := js ''bad key''\<rparr>)
       = (\<lparr>messages = [welcomeMessage], inputValue = '''', isLoading = False,
           apiKey = js ''bad key'', apiKeyInput = js ''bad key'', isApiKeySet = False,
           genAIRef = None\<rparr>, Some alertText)"
  using handleApiKeySubmit_throws
    [of Map.empty "(initialState :: unit State)\<lparr>apiKeyInput := js ''bad key''\<rparr>"]
  by (simp add: initialState_def)

text \<open>
  C4, as stated, fails: it says that the stored credential value is unchanged. On the
  initial page with \<open>bad key\<close> typed into the key field and a constructor that throws,
  \<open>apiKey\<close> goes from the empty string to \<open>bad key\<close>.
\<close>

theorem handleApiKeySubmit_throws_stores_key:
  "apiKey ((initialState :: unit State)\<lparr>apiKeyInput := js ''bad key''\<rparr>) = ''''
   \<and> apiKey (fst (handleApiKeySubmit Map.empty
        ((initialState :: unit State)\<lparr>apiKeyInput := js ''bad key''\<rparr>))) = js ''bad key''"
  by (simp add: handleApiKeySubmit_def initialState_def)

text \<open>
  C5. When the draft is empty or consists of white space only, \<open>handleSubmit\<close> returns
  at once: the whole state is as before, so the transcript and the busy flag are, and no
  request is issued.
\<close>

theorem handleSubmit_blank:
  assumes "\<forall>c\<in>set (inputValue s). isWhiteSpace c"
  shows "handleSubmit env s = (s, Returned)"
  using assms by (simp add: handleSubmit_def trim_Nil_iff)

theorem handleSubmit_blank_witness:
  "list_all isWhiteSpace
     (inputValue (exampleState\<lparr>inputValue := [0x0020, 0x0009, 0x00A0, 0x2003, 0x3000, 0xFEFF]\<rparr>))
   \<and> handleSubmit exampleEnv
        (exampleState\<lparr>inputValue := [0x0020, 0x0009, 0x00A0, 0x2003, 0x3000, 0xFEFF]\<rparr>)
       = (exampleState\<lparr>inputValue := [0x0020, 0x0009, 0x00A0, 0x2003, 0x3000, 0xFEFF]\<rparr>,
          Returned)"
  using handleSubmit_blank
    [of "exampleState\<lparr>inputValue := [0x0020, 0x0009, 0x00A0, 0x2003, 0x3000, 0xFEFF]\<rparr>"
        exampleEnv]
  by (simp add: isWhiteSpace_def)

text \<open>
  C10. The three updates made after the request has been sent (a chunk applied, the
  stream marked as finished, the error text written) keep the length of the transcript
  and leave every message whose identifier is not that of the placeholder as it was.
\<close>

theorem updates_leave_other_messages:
  assumes "i < length (messages s)" and "id_msg (messages s ! i) \<noteq> botMessageId r"
  shows "messages (fst (onChunk chunkText r s)) ! i = messages s ! i
       \<and> messages (onStreamEnd r s) ! i = messages s ! i
       \<and> messages (onError (botMessageId r) s) ! i = messages s ! i
       \<and> length (messages (fst (onChunk chunkText r s))) = length (messages s)
       \<and> length (messages (onStreamEnd r s)) = length (messages s)
       \<and> length (messages (onError (botMessageId r) s)) = length (messages s)"
  using assms
  by (simp add: onChunk_def onStreamEnd_def onError_def Let_def nth_updater_other)

theorem updates_leave_other_messages_witness:
  "(1::nat) < length (messages exampleSubmitted)
   \<and> id_msg (messages exampleSubmitted ! 1) \<noteq> botMessageId exampleRun
   \<and> messages (fst (onChunk (js ''Hi'') exampleRun exampleSubmitted)) ! 1 =
       messages exampleSubmitted ! 1
   \<and> messages (onStreamEnd exampleRun exampleSubmitted) ! 1 = messages exampleSubmitted ! 1
   \<and> messages (onError (botMessageId exampleRun) exampleSubmitted) ! 1 =
       messages exampleSubmitted ! 1
   \<and> messages exampleSubmitted ! 1 =
       \<lparr>id_msg = js ''user-1700000000000'', text_msg = js ''Hello'', sender = User,
        isStreaming = None\<rparr>"
proof -
  have len: "(1::nat) < length (messages exampleSubmitted)"
    and other: "id_msg (messages exampleSubmitted ! 1) \<noteq> botMessageId exampleRun"
    and user: "messages exampleSubmitted ! 1 =
      \<lparr>id_msg = js ''user-1700000000000'', text_msg = js ''Hello'', sender = User,
       isStreaming = None\<rparr>"
    by (simp_all add: exampleSubmitted_def exampleRun_def)
  from updates_leave_other_messages [OF len other, of "js ''Hi''"] len other user
  show ?thesis by simp
qed

text \<open>
  C9, as amended. The request that an accepted submission issues has exactly one
  conversation turn, the new user turn with the text of the draft, whatever the
  transcript holds; the model name and the generation parameters are constants.
\<close>

theorem request_is_new_user_turn:
  assumes "handleSubmit env s = (s1, Awaiting r req)"
  shows "contents req = [\<lparr>role = js ''user'', parts = [Text (inputValue s)]\<rparr>]
       \<and> modelParams req =
           \<lparr>model = js ''gemini-1.5-pro'',
            generationConfig = \<lparr>temperature = 7 / 10, topK = 40, topP = 95 / 100,
              maxOutputTokens = 1024\<rparr>\<rparr>"
  using handleSubmit_Awaiting(7,8) [OF assms] by (simp add: theModelParams_def)

theorem request_is_new_user_turn_witness:
  "handleSubmit exampleEnv exampleState =
     (exampleSubmitted, Awaiting exampleRun exampleRequest)
   \<and> contents exampleRequest = [\<lparr>role = js ''user'', parts = [Text (js ''Hello'')]\<rparr>]
   \<and> modelParams exampleRequest =
       \<lparr>model = js ''gemini-1.5-pro'',
        generationConfig = \<lparr>temperature = 7 / 10, topK = 40, topP = 95 / 100,
          maxOutputTokens = 1024\<rparr>\<rparr>"
  using request_is_new_user_turn [OF handleSubmit_exampleState]
  by (simp add: handleSubmit_exampleState inputValue_exampleState)

text \<open>
  C9, as stated, fails: it says that the request carries the full prior conversation.
  After the exchange \<open>Hi\<close> / \<open>Hello!\<close>, the request for \<open>And then?\<close> has that one turn
  only; neither earlier turn is in it.
\<close>

theorem request_omits_prior_turns:
  "map text_msg (messages exampleLater) =
     [js ''Hello, I am an AI assistant powered by Gemini. How can I help you today?'',
      js ''Hi'', js ''Hello!'']
   \<and> snd (handleSubmit exampleEnv exampleLater) =
       Awaiting \<lparr>botMessageId = js ''bot-1700000000001'', fullText = ''''\<rparr>
         \<lparr>client = js ''AIza-key'', modelParams = theModelParams,
          contents = [\<lparr>role = js ''user'', parts = [Text (js ''And then?'')]\<rparr>]\<rparr>"
  by (simp add: handleSubmit_def Let_def exampleEnv_def exampleState_def exampleLater_def
      trim_examples toString_def digits_example welcomeMessage_def)

text \<open>
  C1. Let an accepted submission be suspended with its request issued, and let the stream
  deliver the fragments \<open>fs\<close> and then end. The placeholder is the message at position
  \<open>length (messages s) + 1\<close> of the transcript. At the end its text is the concatenation
  of the fragments in their order and its streaming flag is false; after any number
  \<open>k\<close> of fragments, up to and including the last, the flag is still true.
\<close>

theorem stream_success:
  assumes "handleSubmit env s = (s1, Awaiting r req)"
  shows "length (messages (resume fs Completes r s1)) = length (messages s) + 2
       \<and> messages (resume fs Completes r s1) ! Suc (length (messages s)) =
           \<lparr>id_msg = botMessageId r, text_msg = concat fs, sender = Bot,
            isStreaming = Some False\<rparr>
       \<and> (\<forall>k\<le>length fs.
             isStreaming (messages (fst (forAwait (take k fs) r s1)) ! Suc (length (messages s)))
               = Some True)"
proof -
  note hs = handleSubmit_Awaiting [OF assms]
  have len: "length (messages (resume fs Completes r s1)) = length (messages s) + 2"
    by (simp add: resume_def forAwait_eq onStreamEnd_def hs(1))
  have fin: "messages (resume fs Completes r s1) ! Suc (length (messages s)) =
      \<lparr>id_msg = botMessageId r, text_msg = concat fs, sender = Bot,
       isStreaming = Some False\<rparr>"
    by (simp add: resume_def forAwait_eq onStreamEnd_def hs(1,2) nth_append
        updateStreamedText_def markNotStreaming_def)
  have mid: "isStreaming (messages (fst (forAwait (take k fs) r s1)) ! Suc (length (messages s)))
      = Some True" for k
    by (simp add: forAwait_eq hs(1,2) nth_append updateStreamedText_def)
  from len fin mid show ?thesis by blast
qed

theorem stream_success_witness:
  "handleSubmit exampleEnv exampleState =
     (exampleSubmitted, Awaiting exampleRun exampleRequest)
   \<and> messages (resume [js ''Hi'', js '' there'', js ''!''] Completes exampleRun exampleSubmitted) =
       [welcomeMessage,
        \<lparr>id_msg = js ''user-1700000000000'', text_msg = js ''Hello'', sender = User,
         isStreaming = None\<rparr>,
        \<lparr>id_msg = js ''bot-1700000000001'', text_msg = js ''Hi there!'', sender = Bot,
         isStreaming = Some False\<rparr>]
   \<and> isStreaming (messages (fst (forAwait [js ''Hi'', js '' there'', js ''!''] exampleRun
         exampleSubmitted)) ! 2) = Some True"
  using stream_success [OF handleSubmit_exampleState, of "[js ''Hi'', js '' there'', js ''!'']"]
  by (simp add: handleSubmit_exampleState resume_def onChunk_def onStreamEnd_def Let_def
      updateStreamedText_def markNotStreaming_def welcomeMessage_def length_exampleState
      exampleSubmitted_def exampleRun_def)

text \<open>
  C2. Let the stream deliver the fragments \<open>fs\<close> (none, or any number) and then fault.
  The text of the placeholder is the fixed error string, nothing of the accumulated
  text is left, its streaming flag is false, and the busy flag is false again.
\<close>

theorem stream_fault:
  assumes "handleSubmit env s = (s1, Awaiting r req)"
  shows "length (messages (resume fs Throws r s1)) = length (messages s) + 2
       \<and> messages (resume fs Throws r s1) ! Suc (length (messages s)) =
           \<lparr>id_msg = botMessageId r, text_msg = errorText, sender = Bot,
            isStreaming = Some False\<rparr>
       \<and> \<not> isLoading (resume fs Throws r s1)"
proof -
  note hs = handleSubmit_Awaiting [OF assms]
  have len: "length (messages (resume fs Throws r s1)) = length (messages s) + 2"
    by (simp add: resume_def forAwait_eq onError_def hs(1))
  have fin: "messages (resume fs Throws r s1) ! Suc (length (messages s)) =
      \<lparr>id_msg = botMessageId r, text_msg = errorText, sender = Bot,
       isStreaming = Some False\<rparr>"
    by (simp add: resume_def forAwait_eq onError_def hs(1,2) nth_append
        updateStreamedText_def updateWithError_def)
  have busy: "\<not> isLoading (resume fs Throws r s1)"
    by (simp add: resume_def forAwait_eq onError_def)
  from len fin busy show ?thesis by blast
qed

theorem stream_fault_witness:
  "handleSubmit exampleEnv exampleState =
     (exampleSubmitted, Awaiting exampleRun exampleRequest)
   \<and> messages (resume [js ''Hi'', js '' there''] Throws exampleRun exampleSubmitted) =
       [welcomeMessage,
        \<lparr>id_msg = js ''user-1700000000000'', text_msg = js ''Hello'', sender = User,
         isStreaming = None\<rparr>,
        \<lparr>id_msg = js ''bot-1700000000001'', text_msg = errorText, sender = Bot,
         isStreaming = Some False\<rparr>]
   \<and> isLoading (resume [js ''Hi'', js '' there''] Throws exampleRun exampleSubmitted) = False"
  using stream_fault [OF handleSubmit_exampleState, of "[js ''Hi'', js '' there'']"]
  by (simp add: handleSubmit_exampleState resume_def onChunk_def onError_def Let_def
      updateStreamedText_def updateWithError_def welcomeMessage_def length_exampleState
      exampleSubmitted_def exampleRun_def)

text \<open>
  C8, as amended. Each turn of the loop appends its fragment to the accumulator and hands
  React one function, which writes the accumulator, as it is when React calls it, into
  the placeholder. So at any moment the accumulator is the concatenation of the
  fragments that have arrived, one function is pending for each fragment since the last
  render, and the placeholder shows the concatenation of the fragments that had arrived
  by the last render. When React renders after every fragment, the state after the
  \<open>k\<close>-th fragment is that of the loop, and the placeholder shows the first \<open>k\<close>
  fragments.
\<close>

theorem fragment_updates:
  assumes "handleSubmit env s = (s1, Awaiting r req)"
  shows "fullText (locals (run ts \<lparr>rendered = s1, locals = r, pending = 0\<rparr>))
           = concat (arrived ts)
       \<and> pending (run ts \<lparr>rendered = s1, locals = r, pending = 0\<rparr>)
           = length (sinceLastRender ts)
       \<and> text_msg (messages (rendered (run ts \<lparr>rendered = s1, locals = r, pending = 0\<rparr>))
             ! Suc (length (messages s)))
           = concat (arrived (untilLastRender ts))
       \<and> (\<forall>k\<le>length fs.
             rendered (run (everyFragment (take k fs)) \<lparr>rendered = s1, locals = r, pending = 0\<rparr>)
               = fst (forAwait (take k fs) r s1)
           \<and> text_msg (messages (rendered (run (everyFragment (take k fs))
                 \<lparr>rendered = s1, locals = r, pending = 0\<rparr>)) ! Suc (length (messages s)))
               = concat (take k fs))"
proof -
  note hs = handleSubmit_Awaiting [OF assms]
  let ?b = "\<lparr>rendered = s1, locals = r, pending = 0\<rparr>"
  have acc: "fullText (locals (run ts ?b)) = concat (arrived ts)"
    by (simp add: run_locals hs(2))
  have queue: "pending (run ts ?b) = length (sinceLastRender ts)"
    by (rule run_pending) simp
  have "length (messages (rendered (run ts ?b))) = length (messages (rendered ?b))
      \<and> id_msg (messages (rendered (run ts ?b)) ! Suc (length (messages s)))
          = botMessageId (locals ?b)
      \<and> text_msg (messages (rendered (run ts ?b)) ! Suc (length (messages s)))
          = concat (arrived (untilLastRender ts))"
    by (rule run_placeholder) (simp_all add: hs(1,2) nth_append)
  then have shown: "text_msg (messages (rendered (run ts ?b)) ! Suc (length (messages s)))
      = concat (arrived (untilLastRender ts))"
    by simp
  have each: "rendered (run (everyFragment (take k fs)) ?b) = fst (forAwait (take k fs) r s1)"
    for k
    by (simp add: run_everyFragment)
  have conc: "text_msg (messages (fst (forAwait (take k fs) r s1)) ! Suc (length (messages s)))
      = concat (take k fs)" for k
    by (simp add: forAwait_eq hs(1,2) nth_append updateStreamedText_def)
  from acc queue shown each conc show ?thesis
    by simp
qed

theorem fragment_updates_witness:
  "handleSubmit exampleEnv exampleState =
     (exampleSubmitted, Awaiting exampleRun exampleRequest)
   \<and> fullText (locals (run [Arrives (js ''Hi''), Renders, Arrives (js '' there''),
        Arrives (js ''!'')] exampleLoop)) = js ''Hi there!''
   \<and> pending (run [Arrives (js ''Hi''), Renders, Arrives (js '' there''),
        Arrives (js ''!'')] exampleLoop) = 2
   \<and> text_msg (messages (rendered (run [Arrives (js ''Hi''), Renders, Arrives (js '' there''),
        Arrives (js ''!'')] exampleLoop)) ! 2) = js ''Hi''
   \<and> map (\<lambda>k. text_msg (messages (rendered (run
          (everyFragment (take k [js ''Hi'', js '' there'', js ''!''])) exampleLoop)) ! 2))
        [1, 2, 3]
       = [js ''Hi'', js ''Hi there'', js ''Hi there!'']"
proof -
  note t = fragment_updates [OF handleSubmit_exampleState,
      of "[Arrives (js ''Hi''), Renders, Arrives (js '' there''), Arrives (js ''!'')]"
         "[js ''Hi'', js '' there'', js ''!'']"]
  have acc: "fullText (locals (run [Arrives (js ''Hi''), Renders, Arrives (js '' there''),
        Arrives (js ''!'')] exampleLoop)) = js ''Hi there!''"
    and queue: "pending (run [Arrives (js ''Hi''), Renders, Arrives (js '' there''),
        Arrives (js ''!'')] exampleLoop) = 2"
    and shown: "text_msg (messages (rendered (run [Arrives (js ''Hi''), Renders,
        Arrives (js '' there''), Arrives (js ''!'')] exampleLoop)) ! 2) = js ''Hi''"
    and each: "map (\<lambda>k. text_msg (messages (rendered (run
          (everyFragment (take k [js ''Hi'', js '' there'', js ''!''])) exampleLoop)) ! 2))
        [1, 2, 3]
       = [js ''Hi'', js ''Hi there'', js ''Hi there!'']"
    by (simp_all add: exampleLoop_def exampleSubmitted_def exampleRun_def turn_def render_def
        updateStreamedText_def welcomeMessage_def)
  show ?thesis
    using handleSubmit_exampleState acc queue shown each t
    by (simp only: simp_thms)
qed

text \<open>
  C8, as stated, fails: it says that the text is updated, and the page rendered, once for
  each fragment, never for several at once. Nothing in the loop makes React render. When
  three fragments arrive before React renders, the placeholder is still empty after the
  first, three functions are pending after the third, and the one render that follows
  shows all three fragments.
\<close>

theorem fragments_batched:
  "text_msg (messages (rendered (run [Arrives (js ''Hi'')] exampleLoop)) ! 2) = ''''
   \<and> pending (run [Arrives (js ''Hi''), Arrives (js '' there''), Arrives (js ''!'')]
        exampleLoop) = 3
   \<and> text_msg (messages (rendered (run [Arrives (js ''Hi''), Arrives (js '' there''),
        Arrives (js ''!''), Renders] exampleLoop)) ! 2) = js ''Hi there!''"
  by (simp add: exampleLoop_def exampleSubmitted_def exampleRun_def turn_def render_def
      updateStreamedText_def welcomeMessage_def)

text \<open>
  C3. In every state that the page reaches in which the busy flag is true, the draft is
  empty, and \<open>handleSubmit\<close> returns at once: the state, and with it the transcript, is
  as before and no request is issued. The submit event of the form leaves the page and
  its one suspended invocation as they were.
\<close>

theorem busy_submit_noop:
  assumes "exec es initialSys = Some y" and "isLoading (ui y)"
  shows "inputValue (ui y) = '''' \<and> handleSubmit env (ui y) = (ui y, Returned)
       \<and> fire (FormSubmit env) y = Some y"
proof -
  from exec_sysInv [OF sysInv_initial assms(1)] have inv: "sysInv y" .
  from inv assms(2) have draft: "inputValue (ui y) = ''''"
    by (simp add: sysInv_def)
  have noop: "handleSubmit env (ui y) = (ui y, Returned)"
    by (rule sysInv_busy [OF inv assms(2)])
  from exec_keySet [OF assms(1)] assms(2) have "isApiKeySet (ui y)"
    by simp
  with noop have "fire (FormSubmit env) y = Some y"
    by simp
  with draft noop show ?thesis by simp
qed

theorem busy_submit_noop_witness:
  "exec exampleEvents initialSys = Some exampleStreaming
   \<and> isLoading (ui exampleStreaming)
   \<and> handleSubmit exampleEnv (ui exampleStreaming) = (ui exampleStreaming, Returned)
   \<and> fire (FormSubmit exampleEnv) exampleStreaming = Some exampleStreaming"
proof -
  have busy: "isLoading (ui exampleStreaming)"
    by (simp add: exampleStreaming_def)
  from busy_submit_noop [OF exec_exampleEvents busy, of exampleEnv] busy show ?thesis
    by (simp add: exec_exampleEvents)
qed

text \<open>
  C6. Whatever events happen, from any state, the transcript before is a prefix of the
  transcript after, message for message by identifier and sender: nothing is deleted,
  nothing changes place, and new messages come at the end.
\<close>

theorem transcript_append_only:
  assumes "exec es y = Some y'"
  shows "prefix (map keyOf (messages (ui y))) (map keyOf (messages (ui y')))"
  using assms
proof (induction es arbitrary: y)
  case Nil
  then show ?case by simp
next
  case (Cons e es)
  from Cons.prems obtain y1 where f: "fire e y = Some y1" and r: "exec es y1 = Some y'"
    by (auto split: option.splits)
  from fire_keys [OF f] Cons.IH [OF r] show ?case
    by (rule prefix_order.trans)
qed

theorem transcript_append_only_witness:
  "exec exampleEvents initialSys = Some exampleStreaming
   \<and> map keyOf (messages (ui (initialSys :: jsstring Sys))) = [(js ''welcome'', Bot)]
   \<and> map keyOf (messages (ui exampleStreaming)) =
       [(js ''welcome'', Bot), (js ''user-1700000000000'', User), (js ''bot-1700000000001'', Bot)]
   \<and> prefix (map keyOf (messages (ui (initialSys :: jsstring Sys))))
        (map keyOf (messages (ui exampleStreaming)))"
proof -
  have before: "map keyOf (messages (ui (initialSys :: jsstring Sys))) = [(js ''welcome'', Bot)]"
    by (simp add: initialSys_def initialState_def keyOf_def welcomeMessage_def)
  have after: "map keyOf (messages (ui exampleStreaming)) =
      [(js ''welcome'', Bot), (js ''user-1700000000000'', User), (js ''bot-1700000000001'', Bot)]"
    by (simp add: exampleStreaming_def keyOf_def welcomeMessage_def)
  from exec_exampleEvents before after transcript_append_only [OF exec_exampleEvents]
  show ?thesis by blast
qed

text \<open>
  C7. In every state that the page reaches, at most one message of the transcript has
  its streaming flag set.
\<close>

theorem at_most_one_streaming:
  assumes "exec es initialSys = Some y"
  shows "length (filter streamingNow (messages (ui y))) \<le> 1"
proof -
  from exec_sysInv [OF sysInv_initial assms] have inv: "sysInv y" .
  show ?thesis
  proof (cases "isLoading (ui y)")
    case True
    with inv show ?thesis
      by (auto simp: sysInv_def split: list.splits)
  next
    case False
    from sysInv_idle(2) [OF inv False] show ?thesis by simp
  qed
qed

theorem at_most_one_streaming_witness:
  "exec exampleEvents initialSys = Some exampleStreaming
   \<and> length (filter streamingNow (messages (ui exampleStreaming))) = 1"
  using at_most_one_streaming [OF exec_exampleEvents]
  by (simp add: exec_exampleEvents exampleStreaming_def streamingNow_def welcomeMessage_def)

end
